theory Spec2Isabelle
  imports Main
begin

section \<open>pkg/unstructured/unknown.go\<close>

text \<open>
  Go strings are byte sequences, as \<^typ>\<open>string\<close> is. An \<^verbatim>\<open>interface{}\<close> value
  of the object map is a tagged value; the only values this package stores are strings.
\<close>

datatype any = StringValue string

text \<open>
  \<^verbatim>\<open>schema.GroupVersion\<close> of k8s.io/apimachinery and its \<^verbatim>\<open>String\<close> method:
  \<^verbatim>\<open>if len(gv.Group) > 0 { return gv.Group + "/" + gv.Version }; return gv.Version\<close>.
\<close>

record GroupVersion_t =
  Group :: string
  Version :: string

definition GroupVersion_String :: "GroupVersion_t \<Rightarrow> string" where
  "GroupVersion_String gv =
     (if length (Group gv) > 0 then Group gv @ ''/'' @ Version gv else Version gv)"

definition GroupVersion :: GroupVersion_t where
  "GroupVersion = \<lparr>Group = ''helm-chartsnap.jlandowner.dev'', Version = ''v1alpha1''\<rparr>"

record UnknownError =
  Raw :: string

text \<open>\<^verbatim>\<open>metaV1.Unstructured\<close>: a struct whose one field is the object map.\<close>

record Unstructured_t =
  Object :: "string \<rightharpoonup> any"

definition NewUnknownError :: "string \<Rightarrow> UnknownError" where
  "NewUnknownError raw = \<lparr>Raw = raw\<rparr>"

text \<open>
  \<^verbatim>\<open>fmt.Sprintf\<close> with the verb \<^verbatim>\<open>%s\<close> on a string writes its bytes as they are.
  The format string holds three line feeds.
\<close>

definition Error :: "UnknownError \<Rightarrow> string" where
  "Error e =
     ''WARN: failed to recognize a resource in stdout/stderr of helm template command output. snapshot it as Unknown: ''
       @ [CHR 0x0A] @ ''---'' @ [CHR 0x0A] @ Raw e @ [CHR 0x0A] @ ''---''"

definition Unstructured :: "UnknownError \<Rightarrow> Unstructured_t" where
  "Unstructured e =
     \<lparr>Object = [''apiVersion'' \<mapsto> StringValue (GroupVersion_String GroupVersion),
                ''kind'' \<mapsto> StringValue ''Unknown'',
                ''raw'' \<mapsto> StringValue (Raw e)]\<rparr>"

section \<open>The command line program\<close>

subsection \<open>Data\<close>

record option_t =
  HelmPath :: string
  ReleaseName :: string
  Namespace :: string
  Chart :: string
  ValuesFile :: string
  Debug :: bool
  UpdateSnapshot :: bool

text \<open>\<^verbatim>\<open>charts.HelmTemplateCmdOptions\<close>, with the six fields \<^verbatim>\<open>run\<close> fills in.\<close>

record HelmTemplateCmdOptions =
  ht_HelmPath :: string
  ht_ReleaseName :: string
  ht_Namespace :: string
  ht_Chart :: string
  ht_ValuesFile :: string
  ht_AdditionalArgs :: "string list"

text \<open>
  A Go function returns a value, returns an error, or panics. Errors are kept as their
  messages: \<^verbatim>\<open>fmt.Errorf\<close> with \<^verbatim>\<open>%w\<close> formats the wrapped error's message
  into the new one.
\<close>

datatype 'a result = Panic | Err string | Ok 'a

subsection \<open>The operating system and the charts library\<close>

text \<open>
  \<^verbatim>\<open>os.Stat\<close> answers that the path does not exist, fails in another way (the
  returned \<^verbatim>\<open>FileInfo\<close> is then nil), or gives the file's info, of which the
  program reads \<^verbatim>\<open>IsDir\<close> only.
\<close>

datatype stat_result = StatNotExist | StatFailed | StatInfo bool

record DirEntry =
  Name :: string
  IsDir :: bool

datatype remove_result = Removed | RemoveNotExist | RemoveFailed string

text \<open>
  The program runs against a file system and libraries that are not part of it
  (\<^verbatim>\<open>os\<close>, \<^verbatim>\<open>path\<close>, and \<^verbatim>\<open>charts\<close> of controller-testtools). They are
  parameters of the model: a world \<open>'w\<close> and the functions the program calls on it.
  \<^verbatim>\<open>os.ReadDir\<close> returns the entries it could read and an error or nil.
  \<^verbatim>\<open>charts.Snap\<close> receives the group's context; what it can read from it is
  whether the context is cancelled. It returns \<^verbatim>\<open>(matched, failureMessage, err)\<close>.
\<close>

record 'w sys =
  os_Stat :: "'w \<Rightarrow> string \<Rightarrow> stat_result"
  os_ReadDir :: "'w \<Rightarrow> string \<Rightarrow> DirEntry list \<times> string option"
  os_Remove :: "'w \<Rightarrow> string \<Rightarrow> remove_result \<times> 'w"
  path_Join :: "string \<Rightarrow> string \<Rightarrow> string"
  charts_SnapshotFile :: "string \<Rightarrow> string \<Rightarrow> string"
  charts_Snap :: "'w \<Rightarrow> bool \<Rightarrow> HelmTemplateCmdOptions
                   \<Rightarrow> (bool \<times> string \<times> string option) \<times> 'w"

text \<open>\<^verbatim>\<open>strings.HasSuffix\<close>:
  \<^verbatim>\<open>len(s) >= len(suffix) && s[len(s)-len(suffix):] == suffix\<close>.\<close>

definition HasSuffix :: "string \<Rightarrow> string \<Rightarrow> bool" where
  "HasSuffix s suffix \<longleftrightarrow>
     length s \<ge> length suffix \<and> drop (length s - length suffix) s = suffix"

subsection \<open>What the program does to the outside\<close>

text \<open>
  The colour attributes the program uses; \<^verbatim>\<open>0\<close> is \<^verbatim>\<open>color.Reset\<close>.
  An event is a banner line, or a call of \<^verbatim>\<open>os.Remove\<close> or \<^verbatim>\<open>charts.Snap\<close>
  by the goroutine with the given index, with what the call returned.
\<close>

datatype Attribute = Reset | FgRed | FgGreen | BgRed | BgGreen | BgBlue

datatype event =
    Banner string string Attribute Attribute
  | OsRemove nat string remove_result
  | ChartsSnap nat HelmTemplateCmdOptions bool "bool \<times> string \<times> string option"

text \<open>
  A goroutine started by \<^verbatim>\<open>eg.Go\<close> is at the start of its function, or past the
  removal of the snapshot file, or its function has returned an error (\<open>None\<close> for
  nil) that the group has not seen yet, or the group has taken the error and the goroutine
  is done.
\<close>

datatype pc = Start | Snapping | Returning "string option" | Returned "string option"

text \<open>
  The state of a run: the world, the events so far, the values the \<^verbatim>\<open>range\<close> loop
  has not reached yet, the goroutines started so far, and the error field of the group,
  which is set once, by the first goroutine that returns an error; the group's context is
  cancelled from that moment on.
\<close>

record 'w state =
  world :: 'w
  out :: "event list"
  pending :: "string list"
  goroutines :: "(HelmTemplateCmdOptions \<times> pc) list"
  eg_err :: "string option"

subsection \<open>Enumerating the values files\<close>

text \<open>The loop over the directory entries, appending to \<^verbatim>\<open>values\<close>.\<close>

fun collect_values :: "'w sys \<Rightarrow> string \<Rightarrow> DirEntry list \<Rightarrow> string list \<Rightarrow> string list" where
  "collect_values sys dir [] values = values"
| "collect_values sys dir (f # files) values =
     collect_values sys dir files
       (if \<not> IsDir f \<and> HasSuffix (Name f) ''.yaml''
        then values @ [path_Join sys dir (Name f)] else values)"

text \<open>
  The first part of \<^verbatim>\<open>run\<close>, up to the group. When \<^verbatim>\<open>os.Stat\<close> fails with an
  error other than not-exist, \<^verbatim>\<open>s\<close> is nil and \<^verbatim>\<open>s.IsDir()\<close> panics.
\<close>

definition enumerate_values :: "'w sys \<Rightarrow> 'w \<Rightarrow> option_t \<Rightarrow> string list result" where
  "enumerate_values sys w o' =
     (if ValuesFile o' = [] then Ok [[]]
      else case os_Stat sys w (ValuesFile o') of
             StatNotExist \<Rightarrow> Err (''values file '' @ [CHR 0x27] @ ValuesFile o' @ [CHR 0x27] @ '' not found'')
           | StatFailed \<Rightarrow> Panic
           | StatInfo isDir \<Rightarrow>
               if isDir then
                 (case os_ReadDir sys w (ValuesFile o') of
                    (files, Some e) \<Rightarrow> Err (''failed to read values file directory: '' @ e)
                  | (files, None) \<Rightarrow> Ok (collect_values sys (ValuesFile o') files []))
               else Ok [ValuesFile o'])"

subsection \<open>The group of goroutines\<close>

text \<open>\<^verbatim>\<open>bannerPrintln\<close> prints the banner and the message in the given colours.\<close>

definition bannerPrintln :: "string \<Rightarrow> string \<Rightarrow> Attribute \<Rightarrow> Attribute \<Rightarrow> 'w state \<Rightarrow> 'w state" where
  "bannerPrintln banner message fgColor bgColor s =
     s\<lparr>out := out s @ [Banner banner message fgColor bgColor]\<rparr>"

text \<open>The options \<^verbatim>\<open>ht\<close> that the loop builds for the values input \<open>v\<close>.\<close>

definition mk_ht :: "option_t \<Rightarrow> string list \<Rightarrow> string \<Rightarrow> HelmTemplateCmdOptions" where
  "mk_ht o' args v =
     \<lparr>ht_HelmPath = HelmPath o', ht_ReleaseName = ReleaseName o', ht_Namespace = Namespace o',
      ht_Chart = Chart o', ht_ValuesFile = v, ht_AdditionalArgs = args\<rparr>"

text \<open>
  One iteration of the \<^verbatim>\<open>range\<close> loop: build the options, print the banner, start
  the goroutine.
\<close>

definition loop_step :: "option_t \<Rightarrow> string list \<Rightarrow> 'w state \<Rightarrow> 'w state" where
  "loop_step o' args s =
     (case pending s of
        [] \<Rightarrow> s
      | v # vs \<Rightarrow>
          let ht = mk_ht o' args v;
              s1 = bannerPrintln ''RUNS''
                     (''Snapshot testing chart='' @ ht_Chart ht @ '' values='' @ ht_ValuesFile ht)
                     Reset BgBlue s
          in s1\<lparr>pending := vs, goroutines := goroutines s1 @ [(ht, Start)]\<rparr>)"

text \<open>The function of goroutine \<open>i\<close> returns \<open>r\<close>.\<close>

definition go_return :: "nat \<Rightarrow> string option \<Rightarrow> 'w state \<Rightarrow> 'w state" where
  "go_return i r s =
     s\<lparr>goroutines := (goroutines s)[i := (fst (goroutines s ! i), Returning r)]\<rparr>"

text \<open>
  What \<^verbatim>\<open>eg.Go\<close> wraps around the function:
  \<^verbatim>\<open>if err := f(); err != nil { g.errOnce.Do(func() { g.err = err; g.cancel(g.err) }) }\<close>.
  The group keeps the first error it is given and cancels its context with it; then the
  goroutine is done.
\<close>

definition eg_done :: "nat \<Rightarrow> string option \<Rightarrow> 'w state \<Rightarrow> 'w state" where
  "eg_done i r s =
     s\<lparr>goroutines := (goroutines s)[i := (fst (goroutines s ! i), Returned r)],
       eg_err := (case r of
                    None \<Rightarrow> eg_err s
                  | Some e \<Rightarrow> (case eg_err s of None \<Rightarrow> Some e | Some e0 \<Rightarrow> Some e0))\<rparr>"

text \<open>The removal of the snapshot file, in update mode.\<close>

definition go_remove :: "'w sys \<Rightarrow> nat \<Rightarrow> 'w state \<Rightarrow> 'w state" where
  "go_remove sys i s =
     (let ht = fst (goroutines s ! i);
          p = charts_SnapshotFile sys (ht_Chart ht) (ht_ValuesFile ht);
          (r, w') = os_Remove sys (world s) p;
          s1 = s\<lparr>world := w', out := out s @ [OsRemove i p r]\<rparr>
      in case r of
           RemoveFailed e \<Rightarrow> go_return i (Some (''failed to replace snapshot file: '' @ e)) s1
         | _ \<Rightarrow> s1\<lparr>goroutines := (goroutines s1)[i := (ht, Snapping)]\<rparr>)"

text \<open>The call of \<^verbatim>\<open>charts.Snap\<close> and the rest of the goroutine's function.\<close>

definition go_snap :: "'w sys \<Rightarrow> nat \<Rightarrow> 'w state \<Rightarrow> 'w state" where
  "go_snap sys i s =
     (let ht = fst (goroutines s ! i);
          cancelled = (eg_err s \<noteq> None);
          (r, w') = charts_Snap sys (world s) cancelled ht;
          s1 = s\<lparr>world := w', out := out s @ [ChartsSnap i ht cancelled r]\<rparr>
      in case r of
           (matched, failureMessage, err) \<Rightarrow>
             (case err of
                Some e \<Rightarrow>
                  go_return i
                    (Some (''failed to get snapshot: '' @ e @ '' chart='' @ ht_Chart ht
                             @ '' values='' @ ht_ValuesFile ht))
                    (bannerPrintln ''FAIL''
                       (e @ '' chart='' @ ht_Chart ht @ '' values='' @ ht_ValuesFile ht)
                       FgRed BgRed s1)
              | None \<Rightarrow>
                  if \<not> matched then
                    go_return i
                      (Some (''not match snapshot chart='' @ ht_Chart ht
                               @ '' values='' @ ht_ValuesFile ht))
                      (bannerPrintln ''FAIL'' failureMessage FgRed BgRed s1)
                  else go_return i None s1))"

text \<open>One step of goroutine \<open>i\<close>; a goroutine that is done does nothing more.\<close>

definition goroutine_step :: "'w sys \<Rightarrow> option_t \<Rightarrow> nat \<Rightarrow> 'w state \<Rightarrow> 'w state" where
  "goroutine_step sys o' i s =
     (if i < length (goroutines s) then
        (case snd (goroutines s ! i) of
           Start \<Rightarrow> if UpdateSnapshot o' then go_remove sys i s else go_snap sys i s
         | Snapping \<Rightarrow> go_snap sys i s
         | Returning r \<Rightarrow> eg_done i r s
         | Returned r \<Rightarrow> s)
      else s)"

text \<open>
  The goroutines run concurrently with the loop that starts them and with each other. A
  schedule is a list of numbers: \<open>0\<close> lets the loop do its next iteration, \<open>Suc i\<close>
  lets goroutine \<open>i\<close> do its next step; a number whose agent cannot move is skipped.
\<close>

definition step :: "'w sys \<Rightarrow> option_t \<Rightarrow> string list \<Rightarrow> nat \<Rightarrow> 'w state \<Rightarrow> 'w state" where
  "step sys o' args n s =
     (case n of 0 \<Rightarrow> loop_step o' args s | Suc i \<Rightarrow> goroutine_step sys o' i s)"

text \<open>
  \<^verbatim>\<open>eg.Wait\<close> returns when the loop has ended and every goroutine is done: at
  the end of the schedule, whatever is left runs to its end, the loop and then each
  goroutine in turn (three steps are all a goroutine has).
\<close>

definition drain :: "'w sys \<Rightarrow> option_t \<Rightarrow> string list \<Rightarrow> 'w state \<Rightarrow> 'w state" where
  "drain sys o' args s =
     (let s1 = fold (\<lambda>v. loop_step o' args) (pending s) s
      in fold (\<lambda>i t. goroutine_step sys o' i (goroutine_step sys o' i (goroutine_step sys o' i t)))
           [0 ..< length (goroutines s1)] s1)"

text \<open>The group under a schedule, from the first iteration of the loop to the end of
  \<^verbatim>\<open>eg.Wait\<close>.\<close>

primrec exec :: "'w sys \<Rightarrow> option_t \<Rightarrow> string list \<Rightarrow> nat list \<Rightarrow> 'w state \<Rightarrow> 'w state" where
  "exec sys o' args [] s = drain sys o' args s"
| "exec sys o' args (n # ns) s = exec sys o' args ns (step sys o' args n s)"

text \<open>The state before the loop, with the values inputs \<open>vs\<close> to go through.\<close>

definition init :: "'w \<Rightarrow> string list \<Rightarrow> 'w state" where
  "init w vs = \<lparr>world = w, out = [], pending = vs, goroutines = [], eg_err = None\<rparr>"

text \<open>
  \<^verbatim>\<open>run\<close> under a schedule: its result, and the state it leaves. Logging is left
  out.
\<close>

definition run :: "'w sys \<Rightarrow> 'w \<Rightarrow> option_t \<Rightarrow> string list \<Rightarrow> nat list \<Rightarrow> unit result \<times> 'w state" where
  "run sys w o' args sched =
     (case enumerate_values sys w o' of
        Panic \<Rightarrow> (Panic, init w [])
      | Err e \<Rightarrow> (Err e, init w [])
      | Ok vs \<Rightarrow>
          let s = exec sys o' args sched (init w vs)
          in (case eg_err s of
                Some e \<Rightarrow> (Err e, s)
              | None \<Rightarrow> (Ok (), bannerPrintln ''PASS'' ''Snapshot matched'' FgGreen BgGreen s)))"

text \<open>
  The exit status of \<^verbatim>\<open>main\<close>: \<^verbatim>\<open>os.Exit(1)\<close> when \<^verbatim>\<open>Execute\<close> returns the
  error of \<^verbatim>\<open>run\<close>, 2 when the Go runtime ends the process on a panic, 0 otherwise.
\<close>

definition main_exit :: "unit result \<Rightarrow> nat" where
  "main_exit r = (case r of Ok u \<Rightarrow> 0 | Err e \<Rightarrow> 1 | Panic \<Rightarrow> 2)"

section \<open>Reading a run\<close>

text \<open>
  The calls of one goroutine are read off the events by its index. A call of
  \<^verbatim>\<open>charts.Snap\<close> passes when it returns \<^verbatim>\<open>matched\<close> true and a nil error; a
  removal is fatal when it fails with an error that is not not-exist.
\<close>

primrec task_of :: "event \<Rightarrow> nat option" where
  "task_of (Banner b m fg bg) = None"
| "task_of (OsRemove i p r) = Some i"
| "task_of (ChartsSnap i ht c r) = Some i"

definition calls :: "event list \<Rightarrow> nat \<Rightarrow> event list" where
  "calls tr i = filter (\<lambda>e. task_of e = Some i) tr"

definition snap_ok :: "bool \<times> string \<times> string option \<Rightarrow> bool" where
  "snap_ok r \<longleftrightarrow> fst r \<and> snd (snd r) = None"

primrec remove_fatal :: "remove_result \<Rightarrow> bool" where
  "remove_fatal Removed = False"
| "remove_fatal RemoveNotExist = False"
| "remove_fatal (RemoveFailed e) = True"

definition snapfile :: "'w sys \<Rightarrow> HelmTemplateCmdOptions \<Rightarrow> string" where
  "snapfile sys ht = charts_SnapshotFile sys (ht_Chart ht) (ht_ValuesFile ht)"

text \<open>The error field of the group after a goroutine is done with \<open>r\<close>.\<close>

definition group_err :: "string option \<Rightarrow> string option \<Rightarrow> string option" where
  "group_err r old = (case r of None \<Rightarrow> old | Some e \<Rightarrow> (case old of None \<Rightarrow> Some e | Some e0 \<Rightarrow> Some e0))"

text \<open>
  What the calls of goroutine \<open>i\<close> have to be once its function has returned \<open>res\<close>:
  in update mode the one removal that failed, with the error made from it; or else the
  removal that did not fail (in update mode) and then one call of \<^verbatim>\<open>charts.Snap\<close>,
  with nil returned exactly when that call passed.
\<close>

definition returned_ok :: "'w sys \<Rightarrow> option_t \<Rightarrow> nat \<Rightarrow> HelmTemplateCmdOptions \<Rightarrow> string option \<Rightarrow> event list \<Rightarrow> bool" where
  "returned_ok sys o' i ht res cs \<longleftrightarrow>
     (UpdateSnapshot o'
      \<and> (\<exists>e. cs = [OsRemove i (snapfile sys ht) (RemoveFailed e)]
             \<and> res = Some (''failed to replace snapshot file: '' @ e)))
     \<or> (\<exists>c sr. (res = None \<longleftrightarrow> snap_ok sr)
           \<and> (if UpdateSnapshot o'
               then \<exists>r. \<not> remove_fatal r
                      \<and> cs = [OsRemove i (snapfile sys ht) r, ChartsSnap i ht c sr]
               else cs = [ChartsSnap i ht c sr]))"

text \<open>The calls \<open>cs\<close> of goroutine \<open>i\<close> fit the place \<open>g\<close> it is at.\<close>

definition task_ok :: "'w sys \<Rightarrow> option_t \<Rightarrow> nat \<Rightarrow> HelmTemplateCmdOptions \<times> pc \<Rightarrow> event list \<Rightarrow> bool" where
  "task_ok sys o' i g cs =
     (case snd g of
        Start \<Rightarrow> cs = []
      | Snapping \<Rightarrow>
          UpdateSnapshot o'
          \<and> (\<exists>r. \<not> remove_fatal r \<and> cs = [OsRemove i (snapfile sys (fst g)) r])
      | Returning res \<Rightarrow> returned_ok sys o' i (fst g) res cs
      | Returned res \<Rightarrow> returned_ok sys o' i (fst g) res cs)"

text \<open>
  What every schedule keeps: the calls of every goroutine fit its place; no event names a
  goroutine that was not started; the group's error is set exactly when a goroutine is done
  with an error; and the goroutines started and the values still to come are the values
  inputs of the run, in order.
\<close>

definition inv_calls :: "'w sys \<Rightarrow> option_t \<Rightarrow> 'w state \<Rightarrow> bool" where
  "inv_calls sys o' s \<longleftrightarrow>
     (\<forall>i<length (goroutines s). task_ok sys o' i (goroutines s ! i) (calls (out s) i))"

definition inv_ids :: "'w state \<Rightarrow> bool" where
  "inv_ids s \<longleftrightarrow> (\<forall>e\<in>set (out s). \<forall>j. task_of e = Some j \<longrightarrow> j < length (goroutines s))"

definition inv_err :: "'w state \<Rightarrow> bool" where
  "inv_err s \<longleftrightarrow>
     (eg_err s = None
        \<longleftrightarrow> (\<forall>i<length (goroutines s). \<forall>e. snd (goroutines s ! i) \<noteq> Returned (Some e)))"

definition inv_hts :: "option_t \<Rightarrow> string list \<Rightarrow> string list \<Rightarrow> 'w state \<Rightarrow> bool" where
  "inv_hts o' args vs s \<longleftrightarrow>
     map fst (goroutines s) @ map (mk_ht o' args) (pending s) = map (mk_ht o' args) vs"

definition inv :: "'w sys \<Rightarrow> option_t \<Rightarrow> string list \<Rightarrow> string list \<Rightarrow> 'w state \<Rightarrow> bool" where
  "inv sys o' args vs s \<longleftrightarrow>
     inv_calls sys o' s \<and> inv_ids s \<and> inv_err s \<and> inv_hts o' args vs s"

text \<open>The steps a goroutine still has to do.\<close>

primrec steps_left :: "pc \<Rightarrow> nat" where
  "steps_left Start = 3"
| "steps_left Snapping = 2"
| "steps_left (Returning r) = 1"
| "steps_left (Returned r) = 0"

section \<open>A small system to run on\<close>

text \<open>
  A world that is the list of the snapshot files that exist. The directory
  \<^verbatim>\<open>testdata\<close> holds two values files, a directory whose name ends in
  \<^verbatim>\<open>.yaml\<close> and a text file; \<^verbatim>\<open>missing.yaml\<close> does not exist. Snap writes a
  missing snapshot and matches it, finds the stored snapshot of \<^verbatim>\<open>b.yaml\<close>
  different, and gives up under a cancelled context.
\<close>

definition demo_sys :: "string list sys" where
  "demo_sys =
     \<lparr>os_Stat = (\<lambda>w p. if p = ''missing.yaml'' then StatNotExist
                        else if p = ''testdata'' then StatInfo True else StatInfo False),
      os_ReadDir = (\<lambda>w p. ([\<lparr>Name = ''a.yaml'', IsDir = False\<rparr>,
                             \<lparr>Name = ''sub.yaml'', IsDir = True\<rparr>,
                             \<lparr>Name = ''notes.txt'', IsDir = False\<rparr>,
                             \<lparr>Name = ''b.yaml'', IsDir = False\<rparr>], None)),
      os_Remove = (\<lambda>w p. if p \<in> set w then (Removed, removeAll p w) else (RemoveNotExist, w)),
      path_Join = (\<lambda>d n. d @ ''/'' @ n),
      charts_SnapshotFile = (\<lambda>c v. (if v = [] then c else v) @ ''.snap''),
      charts_Snap =
        (\<lambda>w cancelled ht.
           if cancelled then ((False, [], Some ''context canceled''), w)
           else let p = (if ht_ValuesFile ht = [] then ht_Chart ht else ht_ValuesFile ht) @ ''.snap''
                in if p \<in> set w
                   then ((ht_ValuesFile ht \<noteq> ''testdata/b.yaml'', ''diff'', None), w)
                   else ((True, [], None), p # w))\<rparr>"

text \<open>The same system on a disk that refuses every removal.\<close>

definition demo_denied :: "string list sys" where
  "demo_denied = demo_sys\<lparr>os_Remove := (\<lambda>w p. (RemoveFailed ''permission denied'', w))\<rparr>"

text \<open>The same system with a directory that holds no values file.\<close>

definition demo_no_yaml :: "string list sys" where
  "demo_no_yaml =
     demo_sys\<lparr>os_ReadDir := (\<lambda>w p. ([\<lparr>Name = ''README.md'', IsDir = False\<rparr>,
                                       \<lparr>Name = ''old.yaml'', IsDir = True\<rparr>], None))\<rparr>"

definition demo_opt :: option_t where
  "demo_opt =
     \<lparr>HelmPath = ''helm'', ReleaseName = ''testrelease'', Namespace = ''testns'',
      Chart = ''chart'', ValuesFile = ''testdata'', Debug = False, UpdateSnapshot = False\<rparr>"

text \<open>The options of the runs below: update mode, no values flag, a values path that does not exist.\<close>

definition demo_update :: option_t where
  "demo_update = demo_opt\<lparr>UpdateSnapshot := True\<rparr>"

definition demo_default :: option_t where
  "demo_default = demo_opt\<lparr>ValuesFile := []\<rparr>"

definition demo_missing :: option_t where
  "demo_missing = demo_opt\<lparr>ValuesFile := ''missing.yaml''\<rparr>"

section \<open>Properties of the unknown resource\<close>

text \<open>
  C1. The unknown resource built from a fragment that failed structured parsing holds,
  under the key \<^verbatim>\<open>raw\<close>, the text of the fragment exactly as it was given: every
  byte, in order, nothing added and nothing dropped.
\<close>

theorem unknown_raw_preserved:
  "Object (Unstructured (NewUnknownError raw)) ''raw'' = Some (StringValue raw)"
  by (simp add: Unstructured_def NewUnknownError_def)

text \<open>
  C8. The message of the error starts with the marker \<^verbatim>\<open>WARN:\<close> and holds the raw
  text of the fragment between its two \<^verbatim>\<open>---\<close> lines, and the error converts to
  a resource of kind \<^verbatim>\<open>Unknown\<close> that carries the fragment: the fragment is
  downgraded, the conversion has no failing branch.
\<close>

theorem unknown_error_is_warning:
  "(\<exists>rest. Error (NewUnknownError raw) = ''WARN: '' @ rest)
   \<and> (\<exists>pre. Error (NewUnknownError raw)
              = pre @ [CHR 0x0A] @ ''---'' @ [CHR 0x0A] @ raw @ [CHR 0x0A] @ ''---'')
   \<and> Object (Unstructured (NewUnknownError raw)) ''kind'' = Some (StringValue ''Unknown'')
   \<and> Object (Unstructured (NewUnknownError raw)) ''raw'' = Some (StringValue raw)"
  by (simp add: Error_def Unstructured_def NewUnknownError_def)

text \<open>
  C9. Whatever the fragment, the unknown resource has the apiVersion
  \<^verbatim>\<open>helm-chartsnap.jlandowner.dev/v1alpha1\<close> and the kind \<^verbatim>\<open>Unknown\<close>, and
  its object map has exactly the three keys apiVersion, kind and raw.
\<close>

theorem unknown_constant_identity:
  "Object (Unstructured (NewUnknownError raw)) ''apiVersion''
     = Some (StringValue ''helm-chartsnap.jlandowner.dev/v1alpha1'')
   \<and> Object (Unstructured (NewUnknownError raw)) ''kind'' = Some (StringValue ''Unknown'')
   \<and> dom (Object (Unstructured (NewUnknownError raw))) = {''apiVersion'', ''kind'', ''raw''}"
  by (auto simp add: Unstructured_def NewUnknownError_def GroupVersion_String_def
      GroupVersion_def)

section \<open>The group: what every schedule keeps\<close>

text \<open>The effect of each step on the events, the goroutines and the error of the group.\<close>

lemma calls_append [simp]: "calls (a @ b) i = calls a i @ calls b i"
  by (simp add: calls_def)

lemma calls_Nil [simp]: "calls [] i = []"
  by (simp add: calls_def)

lemma calls_Cons: "calls (e # es) i = (if task_of e = Some i then e # calls es i else calls es i)"
  by (simp add: calls_def)

lemma calls_Banner [simp]: "calls (Banner b m fg bg # es) i = calls es i"
  by (simp add: calls_def)

lemma go_return_simps [simp]:
  "out (go_return i r s) = out s"
  "pending (go_return i r s) = pending s"
  "world (go_return i r s) = world s"
  "goroutines (go_return i r s) = (goroutines s)[i := (fst (goroutines s ! i), Returning r)]"
  "eg_err (go_return i r s) = eg_err s"
  by (simp_all add: go_return_def)

lemma eg_done_simps [simp]:
  "out (eg_done i r s) = out s"
  "pending (eg_done i r s) = pending s"
  "world (eg_done i r s) = world s"
  "goroutines (eg_done i r s) = (goroutines s)[i := (fst (goroutines s ! i), Returned r)]"
  "eg_err (eg_done i r s) = group_err r (eg_err s)"
  by (simp_all add: eg_done_def group_err_def)

lemma bannerPrintln_simps [simp]:
  "out (bannerPrintln b m fg bg s) = out s @ [Banner b m fg bg]"
  "pending (bannerPrintln b m fg bg s) = pending s"
  "world (bannerPrintln b m fg bg s) = world s"
  "goroutines (bannerPrintln b m fg bg s) = goroutines s"
  "eg_err (bannerPrintln b m fg bg s) = eg_err s"
  by (simp_all add: bannerPrintln_def)

lemma go_snap_effect:
  "\<exists>c sr res bs.
     out (go_snap sys i s) = out s @ ChartsSnap i (fst (goroutines s ! i)) c sr # bs
     \<and> (\<forall>b\<in>set bs. task_of b = None)
     \<and> (res = None \<longleftrightarrow> snap_ok sr)
     \<and> goroutines (go_snap sys i s) = (goroutines s)[i := (fst (goroutines s ! i), Returning res)]
     \<and> eg_err (go_snap sys i s) = eg_err s
     \<and> pending (go_snap sys i s) = pending s"
  by (auto simp add: go_snap_def Let_def snap_ok_def split: prod.splits option.splits)

lemma go_remove_effect:
  "\<exists>r. out (go_remove sys i s) = out s @ [OsRemove i (snapfile sys (fst (goroutines s ! i))) r]
     \<and> pending (go_remove sys i s) = pending s
     \<and> eg_err (go_remove sys i s) = eg_err s
     \<and> goroutines (go_remove sys i s)
         = (goroutines s)
             [i := (fst (goroutines s ! i),
                    case r of
                      RemoveFailed e \<Rightarrow> Returning (Some (''failed to replace snapshot file: '' @ e))
                    | _ \<Rightarrow> Snapping)]"
  by (auto simp add: go_remove_def Let_def snapfile_def split: prod.splits remove_result.splits)

lemma calls_other:
  "\<forall>e\<in>set new. task_of e = None \<or> task_of e = Some i \<Longrightarrow> j \<noteq> i \<Longrightarrow> calls new j = []"
  by (auto simp add: calls_def filter_empty_conv)

lemma calls_none: "\<forall>e\<in>set new. task_of e = None \<Longrightarrow> calls new j = []"
  by (auto simp add: calls_def filter_empty_conv)

lemma map_fst_update: "i < length gs \<Longrightarrow> map fst (gs[i := (fst (gs ! i), x)]) = map fst gs"
  by (simp add: map_update list_update_same_conv)

text \<open>What a step of goroutine \<open>i\<close> has to do for the invariant to be kept.\<close>

lemma inv_update:
  assumes I: "inv sys o' args vs s"
    and i: "i < length (goroutines s)"
    and out: "out s' = out s @ new"
    and new: "\<forall>e\<in>set new. task_of e = None \<or> task_of e = Some i"
    and gs: "goroutines s' = (goroutines s)[i := (fst (goroutines s ! i), p)]"
    and pend: "pending s' = pending s"
    and ok: "task_ok sys o' i (fst (goroutines s ! i), p) (calls (out s @ new) i)"
    and err: "eg_err s' = (case p of Returned r \<Rightarrow> group_err r (eg_err s) | _ \<Rightarrow> eg_err s)"
    and notret: "\<forall>r. snd (goroutines s ! i) \<noteq> Returned r"
  shows "inv sys o' args vs s'"
proof -
  from I have A: "inv_calls sys o' s" and B: "inv_ids s" and C: "inv_err s"
    and D: "inv_hts o' args vs s" by (simp_all add: inv_def)
  have A': "inv_calls sys o' s'"
    unfolding inv_calls_def
  proof (intro allI impI)
    fix j assume j: "j < length (goroutines s')"
    show "task_ok sys o' j (goroutines s' ! j) (calls (out s') j)"
    proof (cases "j = i")
      case True
      with ok out gs i show ?thesis by simp
    next
      case False
      with new have "calls new j = []" by (simp add: calls_other)
      with out have "calls (out s') j = calls (out s) j" by simp
      moreover from A j gs have "task_ok sys o' j (goroutines s ! j) (calls (out s) j)"
        by (simp add: inv_calls_def)
      ultimately show ?thesis using False gs
        by simp
    qed
  qed
  have B': "inv_ids s'"
    using B new i out gs by (auto simp add: inv_ids_def)
  have D': "inv_hts o' args vs s'"
    using D gs pend i by (simp add: inv_hts_def map_fst_update)
  have C': "inv_err s'"
  proof (cases "\<exists>e. p = Returned (Some e)")
    case True
    then obtain e where p: "p = Returned (Some e)" by blast
    with err have "eg_err s' \<noteq> None" by (simp add: group_err_def split: option.splits)
    moreover have "\<exists>k<length (goroutines s'). \<exists>e. snd (goroutines s' ! k) = Returned (Some e)"
      using i gs p by (intro exI[of _ i]) simp
    ultimately show ?thesis by (auto simp add: inv_err_def)
  next
    case False
    then have e: "eg_err s' = eg_err s" using err
      by (cases p) (auto simp add: group_err_def split: option.splits)
    have "(\<forall>k<length (goroutines s'). \<forall>e. snd (goroutines s' ! k) \<noteq> Returned (Some e))
          \<longleftrightarrow> (\<forall>k<length (goroutines s). \<forall>e. snd (goroutines s ! k) \<noteq> Returned (Some e))"
      using False notret gs i by (auto simp add: nth_list_update)
    with C e show ?thesis by (simp add: inv_err_def)
  qed
  from A' B' C' D' show ?thesis by (simp add: inv_def)
qed

lemma inv_init: "inv sys o' args vs (init w vs)"
  by (simp add: inv_def inv_calls_def inv_ids_def inv_err_def inv_hts_def init_def)

lemma calls_fresh:
  "inv_ids s \<Longrightarrow> calls (out s) (length (goroutines s)) = []"
  by (auto simp add: inv_ids_def calls_def filter_empty_conv)

lemma inv_loop_step:
  assumes I: "inv sys o' args vs s"
  shows "inv sys o' args vs (loop_step o' args s)"
proof (cases "pending s")
  case Nil
  with I show ?thesis by (simp add: loop_step_def)
next
  case (Cons v rest)
  let ?b = "Banner ''RUNS'' (''Snapshot testing chart='' @ Chart o' @ '' values='' @ v) Reset BgBlue"
  let ?s' = "loop_step o' args s"
  have out: "out ?s' = out s @ [?b]"
    and gs: "goroutines ?s' = goroutines s @ [(mk_ht o' args v, Start)]"
    and pend: "pending ?s' = rest"
    and err: "eg_err ?s' = eg_err s"
    using Cons by (simp_all add: loop_step_def Let_def mk_ht_def)
  from I have A: "inv_calls sys o' s" and B: "inv_ids s" and C: "inv_err s"
    and D: "inv_hts o' args vs s" by (simp_all add: inv_def)
  have A': "inv_calls sys o' ?s'"
    unfolding inv_calls_def
  proof (intro allI impI)
    fix j assume "j < length (goroutines ?s')"
    then consider "j < length (goroutines s)" | "j = length (goroutines s)"
      using gs by (auto simp add: less_Suc_eq)
    then show "task_ok sys o' j (goroutines ?s' ! j) (calls (out ?s') j)"
    proof cases
      case 1
      with A show ?thesis by (simp add: inv_calls_def out gs nth_append)
    next
      case 2
      with B show ?thesis by (simp add: out gs calls_fresh task_ok_def)
    qed
  qed
  have B': "inv_ids ?s'"
    using B by (auto simp add: inv_ids_def out gs less_Suc_eq)
  have C': "inv_err ?s'"
    using C by (auto simp add: inv_err_def err gs nth_append less_Suc_eq)
  have D': "inv_hts o' args vs ?s'"
    using D Cons by (simp add: inv_hts_def gs pend)
  from A' B' C' D' show ?thesis by (simp add: inv_def)
qed

lemma inv_go_snap:
  assumes I: "inv sys o' args vs s"
    and i: "i < length (goroutines s)"
    and pc: "snd (goroutines s ! i) = Snapping
             \<or> snd (goroutines s ! i) = Start \<and> \<not> UpdateSnapshot o'"
  shows "inv sys o' args vs (go_snap sys i s)"
proof -
  let ?ht = "fst (goroutines s ! i)"
  obtain c sr res bs where
    out: "out (go_snap sys i s) = out s @ ChartsSnap i ?ht c sr # bs"
    and bs: "\<forall>b\<in>set bs. task_of b = None"
    and res: "res = None \<longleftrightarrow> snap_ok sr"
    and gs: "goroutines (go_snap sys i s) = (goroutines s)[i := (?ht, Returning res)]"
    and err: "eg_err (go_snap sys i s) = eg_err s"
    and pend: "pending (go_snap sys i s) = pending s"
    using go_snap_effect[of sys i s] by blast
  from I i have t: "task_ok sys o' i (goroutines s ! i) (calls (out s) i)"
    by (simp add: inv_def inv_calls_def)
  have cb: "calls bs i = []" using bs by (rule calls_none)
  have ok: "task_ok sys o' i (?ht, Returning res) (calls (out s @ ChartsSnap i ?ht c sr # bs) i)"
    using pc
  proof
    assume p: "snd (goroutines s ! i) = Snapping"
    with t obtain r where "UpdateSnapshot o'" "\<not> remove_fatal r"
      "calls (out s) i = [OsRemove i (snapfile sys ?ht) r]"
      by (auto simp add: task_ok_def)
    then show ?thesis using res cb
      by (simp add: task_ok_def returned_ok_def calls_Cons del: split_paired_Ex)
  next
    assume p: "snd (goroutines s ! i) = Start \<and> \<not> UpdateSnapshot o'"
    with t have "calls (out s) i = []" by (simp add: task_ok_def)
    then show ?thesis using res cb p
      by (simp add: task_ok_def returned_ok_def calls_Cons del: split_paired_Ex)
  qed
  show ?thesis
  proof (rule inv_update[OF I i out _ gs pend ok])
    show "\<forall>e\<in>set (ChartsSnap i ?ht c sr # bs). task_of e = None \<or> task_of e = Some i"
      using bs by simp
    show "eg_err (go_snap sys i s)
          = (case Returning res of Returned r \<Rightarrow> group_err r (eg_err s) | _ \<Rightarrow> eg_err s)"
      using err by simp
    show "\<forall>r. snd (goroutines s ! i) \<noteq> Returned r" using pc by auto
  qed
qed

lemma inv_go_remove:
  assumes I: "inv sys o' args vs s"
    and i: "i < length (goroutines s)"
    and pc: "snd (goroutines s ! i) = Start"
    and u: "UpdateSnapshot o'"
  shows "inv sys o' args vs (go_remove sys i s)"
proof -
  let ?ht = "fst (goroutines s ! i)"
  let ?s' = "go_remove sys i s"
  let ?p = "\<lambda>r. case r of
                 RemoveFailed e \<Rightarrow> Returning (Some (''failed to replace snapshot file: '' @ e))
               | _ \<Rightarrow> Snapping"
  obtain r where
    out: "out ?s' = out s @ [OsRemove i (snapfile sys ?ht) r]"
    and pend: "pending ?s' = pending s"
    and err: "eg_err ?s' = eg_err s"
    and gs: "goroutines ?s' = (goroutines s)[i := (?ht, ?p r)]"
    using go_remove_effect[of sys i s] by blast
  from I i have "task_ok sys o' i (goroutines s ! i) (calls (out s) i)"
    by (simp add: inv_def inv_calls_def)
  with pc have t: "calls (out s) i = []"
    by (simp add: task_ok_def)
  have new: "\<forall>e\<in>set [OsRemove i (snapfile sys ?ht) r]. task_of e = None \<or> task_of e = Some i"
    by simp
  have notret: "\<forall>r. snd (goroutines s ! i) \<noteq> Returned r" using pc by simp
  have ok: "task_ok sys o' i (?ht, ?p r) (calls (out s @ [OsRemove i (snapfile sys ?ht) r]) i)"
    using t u by (cases r) (simp_all add: task_ok_def returned_ok_def calls_Cons)
  have e: "eg_err ?s' = (case ?p r of Returned x \<Rightarrow> group_err x (eg_err s) | _ \<Rightarrow> eg_err s)"
    using err by (cases r) simp_all
  show ?thesis
    by (rule inv_update[OF I i out new gs pend ok e notret])
qed

lemma inv_eg_done:
  assumes I: "inv sys o' args vs s"
    and i: "i < length (goroutines s)"
    and pc: "snd (goroutines s ! i) = Returning r"
  shows "inv sys o' args vs (eg_done i r s)"
proof -
  let ?ht = "fst (goroutines s ! i)"
  from I i have "task_ok sys o' i (goroutines s ! i) (calls (out s) i)"
    by (simp add: inv_def inv_calls_def)
  with pc have ok: "task_ok sys o' i (?ht, Returned r) (calls (out s @ []) i)"
    by (simp add: task_ok_def)
  show ?thesis
  proof (rule inv_update[OF I i _ _ _ _ ok])
    show "out (eg_done i r s) = out s @ []" by simp
    show "\<forall>e\<in>set []. task_of e = None \<or> task_of e = Some i" by simp
    show "goroutines (eg_done i r s) = (goroutines s)[i := (?ht, Returned r)]" by simp
    show "pending (eg_done i r s) = pending s" by simp
    show "eg_err (eg_done i r s)
          = (case Returned r of Returned x \<Rightarrow> group_err x (eg_err s) | _ \<Rightarrow> eg_err s)"
      by simp
    show "\<forall>x. snd (goroutines s ! i) \<noteq> Returned x" using pc by simp
  qed
qed

lemma inv_goroutine_step:
  assumes I: "inv sys o' args vs s"
  shows "inv sys o' args vs (goroutine_step sys o' i s)"
proof (cases "i < length (goroutines s)")
  case False
  with I show ?thesis by (simp add: goroutine_step_def)
next
  case True
  show ?thesis
  proof (cases "snd (goroutines s ! i)")
    case Start
    show ?thesis
    proof (cases "UpdateSnapshot o'")
      case True
      with I \<open>i < length (goroutines s)\<close> Start show ?thesis
        by (simp add: goroutine_step_def inv_go_remove)
    next
      case False
      with I \<open>i < length (goroutines s)\<close> Start show ?thesis
        by (simp add: goroutine_step_def inv_go_snap)
    qed
  next
    case Snapping
    with I True show ?thesis by (simp add: goroutine_step_def inv_go_snap)
  next
    case (Returning r)
    with I True show ?thesis by (simp add: goroutine_step_def inv_eg_done)
  next
    case (Returned r)
    with I show ?thesis by (simp add: goroutine_step_def)
  qed
qed

lemma inv_step:
  "inv sys o' args vs s \<Longrightarrow> inv sys o' args vs (step sys o' args n s)"
  by (cases n) (simp_all add: step_def inv_loop_step inv_goroutine_step)

lemma inv_fold_loop:
  "inv sys o' args vs s \<Longrightarrow> inv sys o' args vs (fold (\<lambda>v. loop_step o' args) xs s)"
  by (induction xs arbitrary: s) (simp_all add: inv_loop_step)

lemma inv_fold_goroutines:
  "inv sys o' args vs s \<Longrightarrow>
   inv sys o' args vs
     (fold (\<lambda>i t. goroutine_step sys o' i (goroutine_step sys o' i (goroutine_step sys o' i t)))
        xs s)"
  by (induction xs arbitrary: s) (simp_all add: inv_goroutine_step)

lemma inv_drain:
  "inv sys o' args vs s \<Longrightarrow> inv sys o' args vs (drain sys o' args s)"
  by (simp add: drain_def Let_def inv_fold_loop inv_fold_goroutines)

lemma inv_exec:
  "inv sys o' args vs s \<Longrightarrow> inv sys o' args vs (exec sys o' args sched s)"
  by (induction sched arbitrary: s) (simp_all add: inv_drain inv_step)

text \<open>Every goroutine is done when the schedule and the rest have run.\<close>

lemma steps_left_0: "steps_left p = 0 \<longleftrightarrow> (\<exists>r. p = Returned r)"
  by (cases p) simp_all

lemma go_snap_pcs:
  "\<exists>res. goroutines (go_snap sys i s) = (goroutines s)[i := (fst (goroutines s ! i), Returning res)]"
  using go_snap_effect[of sys i s] by blast

lemma go_remove_pcs:
  "\<exists>p. steps_left p \<le> 2
       \<and> goroutines (go_remove sys i s) = (goroutines s)[i := (fst (goroutines s ! i), p)]"
proof -
  obtain r where
    g: "goroutines (go_remove sys i s)
         = (goroutines s)
             [i := (fst (goroutines s ! i),
                    case r of
                      RemoveFailed e \<Rightarrow> Returning (Some (''failed to replace snapshot file: '' @ e))
                    | _ \<Rightarrow> Snapping)]"
    using go_remove_effect[of sys i s] by blast
  have "steps_left (case r of
                      RemoveFailed e \<Rightarrow> Returning (Some (''failed to replace snapshot file: '' @ e))
                    | _ \<Rightarrow> Snapping) \<le> 2"
    by (cases r) simp_all
  with g show ?thesis by blast
qed

lemma goroutine_step_pcs:
  "\<exists>p. steps_left p \<le> steps_left (snd (goroutines s ! i)) - 1
       \<and> goroutines (goroutine_step sys o' i s)
           = (goroutines s)[i := (fst (goroutines s ! i), p)]"
proof (cases "i < length (goroutines s)")
  case False
  then show ?thesis
    by (intro exI[of _ "Returned None"]) (simp add: goroutine_step_def list_update_beyond)
next
  case True
  show ?thesis
  proof (cases "snd (goroutines s ! i)")
    case Start
    show ?thesis
    proof (cases "UpdateSnapshot o'")
      case u: True
      obtain p1 where n: "steps_left p1 \<le> 2"
        and g: "goroutines (go_remove sys i s) = (goroutines s)[i := (fst (goroutines s ! i), p1)]"
        using go_remove_pcs[of sys i s] by blast
      with u True Start show ?thesis
        by (intro exI[of _ p1]) (simp add: goroutine_step_def)
    next
      case u: False
      obtain r2 where
        g: "goroutines (go_snap sys i s) = (goroutines s)[i := (fst (goroutines s ! i), Returning r2)]"
        using go_snap_pcs[of sys i s] by blast
      with u True Start show ?thesis
        by (intro exI[of _ "Returning r2"]) (simp add: goroutine_step_def)
    qed
  next
    case Snapping
    obtain r2 where
      g: "goroutines (go_snap sys i s) = (goroutines s)[i := (fst (goroutines s ! i), Returning r2)]"
      using go_snap_pcs[of sys i s] by blast
    with True Snapping show ?thesis
      by (intro exI[of _ "Returning r2"]) (simp add: goroutine_step_def)
  next
    case (Returning r)
    with True show ?thesis
      by (intro exI[of _ "Returned r"]) (simp add: goroutine_step_def)
  next
    case (Returned r)
    then have "(goroutines s)[i := (fst (goroutines s ! i), Returned r)] = goroutines s"
      by (metis list_update_id prod.collapse)
    with Returned True show ?thesis
      by (intro exI[of _ "Returned r"]) (simp add: goroutine_step_def)
  qed
qed

lemma goroutine_step_pending [simp]:
  "pending (goroutine_step sys o' i s) = pending s"
  using go_snap_effect[of sys i s] go_remove_effect[of sys i s]
  by (auto simp add: goroutine_step_def split: pc.splits)

lemma goroutine_thrice:
  "\<exists>p. (i < length (goroutines s) \<longrightarrow> steps_left p = 0)
       \<and> goroutines (goroutine_step sys o' i (goroutine_step sys o' i (goroutine_step sys o' i s)))
           = (goroutines s)[i := (fst (goroutines s ! i), p)]"
proof -
  let ?s1 = "goroutine_step sys o' i s"
  let ?s2 = "goroutine_step sys o' i ?s1"
  obtain p1 where p1: "steps_left p1 \<le> steps_left (snd (goroutines s ! i)) - 1"
    and g1: "goroutines ?s1 = (goroutines s)[i := (fst (goroutines s ! i), p1)]"
    using goroutine_step_pcs[of s i sys o'] by blast
  obtain p2 where p2: "steps_left p2 \<le> steps_left (snd (goroutines ?s1 ! i)) - 1"
    and g2: "goroutines ?s2 = (goroutines ?s1)[i := (fst (goroutines ?s1 ! i), p2)]"
    using goroutine_step_pcs[of ?s1 i sys o'] by blast
  obtain p3 where p3: "steps_left p3 \<le> steps_left (snd (goroutines ?s2 ! i)) - 1"
    and g3: "goroutines (goroutine_step sys o' i ?s2)
             = (goroutines ?s2)[i := (fst (goroutines ?s2 ! i), p3)]"
    using goroutine_step_pcs[of ?s2 i sys o'] by blast
  have le3: "steps_left q \<le> 3" for q by (cases q) simp_all
  show ?thesis
  proof (intro exI[of _ p3] conjI impI)
    assume i: "i < length (goroutines s)"
    with g1 have "snd (goroutines ?s1 ! i) = p1" by simp
    moreover from i g1 g2 have "snd (goroutines ?s2 ! i) = p2" by simp
    ultimately show "steps_left p3 = 0"
      using p1 p2 p3 le3[of "snd (goroutines s ! i)"] by simp
  next
    show "goroutines (goroutine_step sys o' i ?s2) = (goroutines s)[i := (fst (goroutines s ! i), p3)]"
    proof (cases "i < length (goroutines s)")
      case True
      with g1 g2 g3 show ?thesis by simp
    next
      case False
      with g1 g2 g3 show ?thesis by (simp add: list_update_beyond)
    qed
  qed
qed

lemma fold_goroutines_done:
  "n \<le> length (goroutines s) \<Longrightarrow>
   length (goroutines (fold (\<lambda>i t. goroutine_step sys o' i (goroutine_step sys o' i (goroutine_step sys o' i t))) [0..<n] s))
     = length (goroutines s)
   \<and> (\<forall>i<n. steps_left (snd (goroutines
         (fold (\<lambda>i t. goroutine_step sys o' i (goroutine_step sys o' i (goroutine_step sys o' i t))) [0..<n] s) ! i)) = 0)"
proof (induction n)
  case 0
  show ?case by simp
next
  case (Suc n)
  let ?f = "\<lambda>i t. goroutine_step sys o' i (goroutine_step sys o' i (goroutine_step sys o' i t))"
  let ?t = "fold ?f [0..<n] s"
  from Suc have len: "length (goroutines ?t) = length (goroutines s)"
    and dn: "\<forall>i<n. steps_left (snd (goroutines ?t ! i)) = 0" by simp_all
  obtain p where p: "n < length (goroutines ?t) \<longrightarrow> steps_left p = 0"
    and g: "goroutines (?f n ?t) = (goroutines ?t)[n := (fst (goroutines ?t ! n), p)]"
    using goroutine_thrice[of n ?t sys o'] by blast
  have f: "fold ?f [0..<Suc n] s = ?f n ?t" by simp
  show ?case
    unfolding f
  proof (intro conjI allI impI)
    show "length (goroutines (?f n ?t)) = length (goroutines s)" using g len by simp
    fix i assume "i < Suc n"
    then consider "i < n" | "i = n" by (auto simp add: less_Suc_eq)
    then show "steps_left (snd (goroutines (?f n ?t) ! i)) = 0"
    proof cases
      case 1
      with dn g show ?thesis by simp
    next
      case 2
      with p g len Suc.prems show ?thesis by simp
    qed
  qed
qed

lemma loop_step_pending: "pending (loop_step o' args s) = tl (pending s)"
  by (simp add: loop_step_def Let_def split: list.splits)

lemma fold_loop_pending:
  "pending (fold (\<lambda>v. loop_step o' args) xs s) = drop (length xs) (pending s)"
  by (induction xs arbitrary: s) (simp_all add: loop_step_pending drop_Suc)

lemma fold_goroutines_pending:
  "pending (fold (\<lambda>i t. goroutine_step sys o' i (goroutine_step sys o' i (goroutine_step sys o' i t))) xs s) = pending s"
  by (induction xs arbitrary: s) simp_all

lemma drain_final:
  "pending (drain sys o' args s) = []
   \<and> (\<forall>i<length (goroutines (drain sys o' args s)).
         \<exists>r. snd (goroutines (drain sys o' args s) ! i) = Returned r)"
proof -
  let ?s1 = "fold (\<lambda>v. loop_step o' args) (pending s) s"
  have d: "drain sys o' args s
           = fold (\<lambda>i t. goroutine_step sys o' i (goroutine_step sys o' i (goroutine_step sys o' i t)))
               [0 ..< length (goroutines ?s1)] ?s1"
    by (simp add: drain_def Let_def)
  have "pending ?s1 = []" by (simp add: fold_loop_pending)
  then have P: "pending (drain sys o' args s) = []"
    by (simp add: d fold_goroutines_pending)
  from fold_goroutines_done[of "length (goroutines ?s1)" ?s1 sys o']
  have "\<forall>i<length (goroutines (drain sys o' args s)).
          steps_left (snd (goroutines (drain sys o' args s) ! i)) = 0"
    by (simp add: d)
  with P show ?thesis by (simp add: steps_left_0)
qed

lemma exec_drain:
  "exec sys o' args sched s = drain sys o' args (fold (step sys o' args) sched s)"
  by (induction sched arbitrary: s) simp_all

text \<open>The state in which \<^verbatim>\<open>eg.Wait\<close> returns.\<close>

lemma exec_final:
  "inv sys o' args vs (exec sys o' args sched (init w vs))"
  "pending (exec sys o' args sched (init w vs)) = []"
  "map fst (goroutines (exec sys o' args sched (init w vs))) = map (mk_ht o' args) vs"
  "length (goroutines (exec sys o' args sched (init w vs))) = length vs"
  "\<forall>i<length vs. \<exists>r. snd (goroutines (exec sys o' args sched (init w vs)) ! i) = Returned r"
proof -
  let ?t = "exec sys o' args sched (init w vs)"
  show I: "inv sys o' args vs ?t"
    by (rule inv_exec[OF inv_init])
  show P: "pending ?t = []"
    unfolding exec_drain using drain_final by blast
  from I P show M: "map fst (goroutines ?t) = map (mk_ht o' args) vs"
    by (simp add: inv_def inv_hts_def)
  then show L: "length (goroutines ?t) = length vs"
    by (metis length_map)
  show "\<forall>i<length vs. \<exists>r. snd (goroutines ?t ! i) = Returned r"
    using drain_final[of sys o' args "fold (step sys o' args) sched (init w vs)"] L
    unfolding exec_drain by simp
qed

lemma mem_calls: "e \<in> set (calls tr i) \<longleftrightarrow> e \<in> set tr \<and> task_of e = Some i"
  by (auto simp add: calls_def)

lemma run_Ok:
  "enumerate_values sys w o' = Ok vs \<Longrightarrow>
   run sys w o' args sched =
     (let s = exec sys o' args sched (init w vs)
      in (case eg_err s of
            Some e \<Rightarrow> (Err e, s)
          | None \<Rightarrow> (Ok (), bannerPrintln ''PASS'' ''Snapshot matched'' FgGreen BgGreen s)))"
  by (simp add: run_def)

text \<open>What holds when \<^verbatim>\<open>run\<close> returns, for a run that got as far as the group.\<close>

lemma run_final:
  fixes sys :: "'w sys" and args :: "string list" and sched :: "nat list"
  assumes E: "enumerate_values sys w o' = Ok vs"
  defines "r \<equiv> run sys w o' args sched"
  shows "length (goroutines (snd r)) = length vs"
    and "\<forall>i<length vs. \<exists>res.
           goroutines (snd r) ! i = (mk_ht o' args (vs ! i), Returned res)
           \<and> task_ok sys o' i (mk_ht o' args (vs ! i), Returned res) (calls (out (snd r)) i)"
    and "fst r = Ok () \<longleftrightarrow> (\<forall>i<length vs. snd (goroutines (snd r) ! i) = Returned None)"
    and "fst r = Ok () \<or> (\<exists>e. fst r = Err e)"
    and "\<forall>e\<in>set (out (snd r)). \<forall>j. task_of e = Some j \<longrightarrow> j < length vs"
proof -
  let ?t = "exec sys o' args sched (init w vs)"
  have I: "inv sys o' args vs ?t"
    and M: "map fst (goroutines ?t) = map (mk_ht o' args) vs"
    and L: "length (goroutines ?t) = length vs"
    and R: "\<forall>i<length vs. \<exists>res. snd (goroutines ?t ! i) = Returned res"
    by (rule exec_final)+
  have c: "calls (out (snd r)) i = calls (out ?t) i" for i
    unfolding r_def run_Ok[OF E] Let_def
    by (simp split: option.splits)
  have g: "goroutines (snd r) = goroutines ?t"
    and f: "fst r = Ok () \<longleftrightarrow> eg_err ?t = None"
    and f': "fst r = Ok () \<or> (\<exists>e. fst r = Err e)"
    and ids: "\<forall>e\<in>set (out (snd r)). \<forall>j. task_of e = Some j \<longrightarrow> (\<exists>e'\<in>set (out ?t). task_of e' = Some j)"
    unfolding r_def run_Ok[OF E] Let_def
    by (auto split: option.splits)
  show "length (goroutines (snd r)) = length vs" using g L by simp
  show "\<forall>i<length vs. \<exists>res.
           goroutines (snd r) ! i = (mk_ht o' args (vs ! i), Returned res)
           \<and> task_ok sys o' i (mk_ht o' args (vs ! i), Returned res) (calls (out (snd r)) i)"
  proof (intro allI impI)
    fix i assume i: "i < length vs"
    with R obtain res where res: "snd (goroutines ?t ! i) = Returned res" by blast
    from M i L have "fst (goroutines ?t ! i) = mk_ht o' args (vs ! i)"
      by (metis nth_map)
    with res have e: "goroutines ?t ! i = (mk_ht o' args (vs ! i), Returned res)"
      by (metis prod.collapse)
    from I i L have "task_ok sys o' i (goroutines ?t ! i) (calls (out ?t) i)"
      by (simp add: inv_def inv_calls_def)
    with e g c show "\<exists>res.
           goroutines (snd r) ! i = (mk_ht o' args (vs ! i), Returned res)
           \<and> task_ok sys o' i (mk_ht o' args (vs ! i), Returned res) (calls (out (snd r)) i)"
      by simp
  qed
  from I have "eg_err ?t = None
       \<longleftrightarrow> (\<forall>i<length vs. \<forall>e. snd (goroutines ?t ! i) \<noteq> Returned (Some e))"
    by (simp add: inv_def inv_err_def L)
  also have "\<dots> \<longleftrightarrow> (\<forall>i<length vs. snd (goroutines ?t ! i) = Returned None)"
    using R by (metis option.exhaust option.distinct(1) pc.inject)
  finally show "fst r = Ok () \<longleftrightarrow> (\<forall>i<length vs. snd (goroutines (snd r) ! i) = Returned None)"
    using f g by simp
  show "fst r = Ok () \<or> (\<exists>e. fst r = Err e)" by (rule f')
  from I have "inv_ids ?t" by (simp add: inv_def)
  with ids L show "\<forall>e\<in>set (out (snd r)). \<forall>j. task_of e = Some j \<longrightarrow> j < length vs"
    by (auto simp add: inv_ids_def)
qed

text \<open>A goroutine returns nil exactly when its call of \<^verbatim>\<open>charts.Snap\<close> passed.\<close>

lemma task_ok_Returned_pass:
  "task_ok sys o' i (ht, Returned res) cs \<Longrightarrow>
   res = None \<longleftrightarrow> (\<exists>c sr. snap_ok sr \<and> ChartsSnap i ht c sr \<in> set cs)"
  by (auto simp add: task_ok_def returned_ok_def simp del: split_paired_Ex split: if_splits)

lemma snapfile_mk_ht [simp]:
  "snapfile sys (mk_ht o' args v) = charts_SnapshotFile sys (Chart o') v"
  by (simp add: snapfile_def mk_ht_def)

text \<open>What the calls of a goroutine say about the options it was started with.\<close>

lemma task_ok_snap_ht:
  "task_ok sys o' i (ht, p) cs \<Longrightarrow> ChartsSnap j ht' c sr \<in> set cs \<Longrightarrow> ht' = ht \<and> j = i"
  by (auto simp add: task_ok_def returned_ok_def simp del: split_paired_Ex split: pc.splits if_splits)

lemma task_ok_Returned_called:
  "task_ok sys o' i (ht, Returned res) cs \<Longrightarrow>
   (\<exists>c sr. ChartsSnap i ht c sr \<in> set cs)
   \<or> UpdateSnapshot o' \<and> (\<exists>e. cs = [OsRemove i (snapfile sys ht) (RemoveFailed e)])"
  by (auto simp add: task_ok_def returned_ok_def simp del: split_paired_Ex split: if_splits)

text \<open>The loop over the directory entries is a filter and a map.\<close>

lemma collect_values_eq:
  "collect_values sys dir files acc
     = acc @ map (\<lambda>f. path_Join sys dir (Name f))
               (filter (\<lambda>f. \<not> IsDir f \<and> HasSuffix (Name f) ''.yaml'') files)"
  by (induction files arbitrary: acc) simp_all

lemma HasSuffix_iff: "HasSuffix s suffix \<longleftrightarrow> (\<exists>pre. s = pre @ suffix)"
proof
  assume "HasSuffix s suffix"
  then have "s = take (length s - length suffix) s @ suffix"
    by (metis HasSuffix_def append_take_drop_id)
  then show "\<exists>pre. s = pre @ suffix" ..
next
  assume "\<exists>pre. s = pre @ suffix"
  then show "HasSuffix s suffix" by (auto simp add: HasSuffix_def)
qed

section \<open>Runs of the small system\<close>

text \<open>
  The values inputs of the small system, and five of its runs: all pass; \<^verbatim>\<open>b.yaml\<close>
  fails and \<^verbatim>\<open>a.yaml\<close> calls Snap under the cancelled context; update mode; update
  mode on the disk that refuses removals; no values flag.
\<close>

lemma demo_enum:
  "enumerate_values demo_sys w demo_opt = Ok [''testdata/a.yaml'', ''testdata/b.yaml'']"
  "enumerate_values demo_sys w demo_update = Ok [''testdata/a.yaml'', ''testdata/b.yaml'']"
  "enumerate_values demo_denied w demo_update = Ok [''testdata/a.yaml'', ''testdata/b.yaml'']"
  "enumerate_values demo_no_yaml w demo_opt = Ok []"
  "enumerate_values demo_sys w demo_default = Ok [[]]"
  "enumerate_values demo_sys w demo_missing = Err ''values file 'missing.yaml' not found''"
  by (simp_all add: enumerate_values_def demo_sys_def demo_denied_def demo_no_yaml_def
      demo_opt_def demo_update_def demo_default_def demo_missing_def HasSuffix_def)

lemma demo_run_pass:
  "run demo_sys [] demo_opt [] [0, 1, 0, 2, 2, 1] =
     (Ok (),
      \<lparr>world = [''testdata/b.yaml.snap'', ''testdata/a.yaml.snap''],
       out = [Banner ''RUNS'' ''Snapshot testing chart=chart values=testdata/a.yaml'' Reset BgBlue,
              ChartsSnap 0 (mk_ht demo_opt [] ''testdata/a.yaml'') False (True, [], None),
              Banner ''RUNS'' ''Snapshot testing chart=chart values=testdata/b.yaml'' Reset BgBlue,
              ChartsSnap 1 (mk_ht demo_opt [] ''testdata/b.yaml'') False (True, [], None),
              Banner ''PASS'' ''Snapshot matched'' FgGreen BgGreen],
       pending = [],
       goroutines = [(mk_ht demo_opt [] ''testdata/a.yaml'', Returned None),
                     (mk_ht demo_opt [] ''testdata/b.yaml'', Returned None)],
       eg_err = None\<rparr>)"
  by code_simp

lemma demo_run_cancelled:
  "run demo_sys [''testdata/b.yaml.snap''] demo_opt [] [0, 0, 2, 2, 1] =
     (Err ''not match snapshot chart=chart values=testdata/b.yaml'',
      \<lparr>world = [''testdata/b.yaml.snap''],
       out = [Banner ''RUNS'' ''Snapshot testing chart=chart values=testdata/a.yaml'' Reset BgBlue,
              Banner ''RUNS'' ''Snapshot testing chart=chart values=testdata/b.yaml'' Reset BgBlue,
              ChartsSnap 1 (mk_ht demo_opt [] ''testdata/b.yaml'') False (False, ''diff'', None),
              Banner ''FAIL'' ''diff'' FgRed BgRed,
              ChartsSnap 0 (mk_ht demo_opt [] ''testdata/a.yaml'') True
                (False, [], Some ''context canceled''),
              Banner ''FAIL'' ''context canceled chart=chart values=testdata/a.yaml'' FgRed BgRed],
       pending = [],
       goroutines =
         [(mk_ht demo_opt [] ''testdata/a.yaml'',
           Returned (Some ''failed to get snapshot: context canceled chart=chart values=testdata/a.yaml'')),
          (mk_ht demo_opt [] ''testdata/b.yaml'',
           Returned (Some ''not match snapshot chart=chart values=testdata/b.yaml''))],
       eg_err = Some ''not match snapshot chart=chart values=testdata/b.yaml''\<rparr>)"
  by code_simp

lemma demo_run_update:
  "run demo_sys [''testdata/b.yaml.snap''] demo_update [] [0, 0, 2, 1, 1, 2] =
     (Ok (),
      \<lparr>world = [''testdata/b.yaml.snap'', ''testdata/a.yaml.snap''],
       out = [Banner ''RUNS'' ''Snapshot testing chart=chart values=testdata/a.yaml'' Reset BgBlue,
              Banner ''RUNS'' ''Snapshot testing chart=chart values=testdata/b.yaml'' Reset BgBlue,
              OsRemove 1 ''testdata/b.yaml.snap'' Removed,
              OsRemove 0 ''testdata/a.yaml.snap'' RemoveNotExist,
              ChartsSnap 0 (mk_ht demo_update [] ''testdata/a.yaml'') False (True, [], None),
              ChartsSnap 1 (mk_ht demo_update [] ''testdata/b.yaml'') False (True, [], None),
              Banner ''PASS'' ''Snapshot matched'' FgGreen BgGreen],
       pending = [],
       goroutines = [(mk_ht demo_update [] ''testdata/a.yaml'', Returned None),
                     (mk_ht demo_update [] ''testdata/b.yaml'', Returned None)],
       eg_err = None\<rparr>)"
  by code_simp

lemma demo_run_denied:
  "run demo_denied [''testdata/b.yaml.snap''] demo_update [] [0, 1, 1] =
     (Err ''failed to replace snapshot file: permission denied'',
      \<lparr>world = [''testdata/b.yaml.snap''],
       out = [Banner ''RUNS'' ''Snapshot testing chart=chart values=testdata/a.yaml'' Reset BgBlue,
              OsRemove 0 ''testdata/a.yaml.snap'' (RemoveFailed ''permission denied''),
              Banner ''RUNS'' ''Snapshot testing chart=chart values=testdata/b.yaml'' Reset BgBlue,
              OsRemove 1 ''testdata/b.yaml.snap'' (RemoveFailed ''permission denied'')],
       pending = [],
       goroutines =
         [(mk_ht demo_update [] ''testdata/a.yaml'',
           Returned (Some ''failed to replace snapshot file: permission denied'')),
          (mk_ht demo_update [] ''testdata/b.yaml'',
           Returned (Some ''failed to replace snapshot file: permission denied''))],
       eg_err = Some ''failed to replace snapshot file: permission denied''\<rparr>)"
  by code_simp

lemma demo_run_default:
  "run demo_sys [] demo_default [] [1, 0] =
     (Ok (),
      \<lparr>world = [''chart.snap''],
       out = [Banner ''RUNS'' ''Snapshot testing chart=chart values='' Reset BgBlue,
              ChartsSnap 0 (mk_ht demo_default [] []) False (True, [], None),
              Banner ''PASS'' ''Snapshot matched'' FgGreen BgGreen],
       pending = [],
       goroutines = [(mk_ht demo_default [] [], Returned None)],
       eg_err = None\<rparr>)"
  by code_simp


section \<open>The orchestrator\<close>

text \<open>
  C2. For a run that enumerated the values inputs \<open>vs\<close>, under every schedule: one
  goroutine was started per TestCase; \<^verbatim>\<open>run\<close> returns nil exactly when every
  TestCase's goroutine returned nil, and an error otherwise (it does not panic);
  \<^verbatim>\<open>main\<close> exits with 0 exactly when \<^verbatim>\<open>run\<close> returns nil; and a TestCase's
  goroutine returns nil exactly when its call of \<^verbatim>\<open>charts.Snap\<close> returned
  \<^verbatim>\<open>matched\<close> true and no error.
\<close>

theorem run_succeeds_iff_all_pass:
  fixes sys :: "'w sys" and args :: "string list" and sched :: "nat list"
  assumes E: "enumerate_values sys w o' = Ok vs"
  defines "r \<equiv> run sys w o' args sched"
  shows "length (goroutines (snd r)) = length vs
     \<and> (fst r = Ok () \<longleftrightarrow> (\<forall>i<length vs. snd (goroutines (snd r) ! i) = Returned None))
     \<and> (fst r = Ok () \<or> (\<exists>e. fst r = Err e))
     \<and> (main_exit (fst r) = 0 \<longleftrightarrow> fst r = Ok ())
     \<and> (\<forall>i<length vs.
           snd (goroutines (snd r) ! i) = Returned None
           \<longleftrightarrow> (\<exists>c sr. snap_ok sr
                  \<and> ChartsSnap i (mk_ht o' args (vs ! i)) c sr \<in> set (out (snd r))))"
proof (intro conjI)
  show "length (goroutines (snd r)) = length vs"
    unfolding r_def by (rule run_final(1)[OF E])
  show "fst r = Ok () \<longleftrightarrow> (\<forall>i<length vs. snd (goroutines (snd r) ! i) = Returned None)"
    unfolding r_def by (rule run_final(3)[OF E])
  show f: "fst r = Ok () \<or> (\<exists>e. fst r = Err e)"
    unfolding r_def by (rule run_final(4)[OF E])
  then show "main_exit (fst r) = 0 \<longleftrightarrow> fst r = Ok ()"
    by (auto simp add: main_exit_def)
  show "\<forall>i<length vs.
           snd (goroutines (snd r) ! i) = Returned None
           \<longleftrightarrow> (\<exists>c sr. snap_ok sr
                  \<and> ChartsSnap i (mk_ht o' args (vs ! i)) c sr \<in> set (out (snd r)))"
  proof (intro allI impI)
    fix i assume "i < length vs"
    with run_final(2)[OF E, of args sched] obtain res where
      g: "goroutines (snd r) ! i = (mk_ht o' args (vs ! i), Returned res)"
      and t: "task_ok sys o' i (mk_ht o' args (vs ! i), Returned res) (calls (out (snd r)) i)"
      unfolding r_def by blast
    from task_ok_Returned_pass[OF t] g
    show "snd (goroutines (snd r) ! i) = Returned None
           \<longleftrightarrow> (\<exists>c sr. snap_ok sr
                  \<and> ChartsSnap i (mk_ht o' args (vs ! i)) c sr \<in> set (out (snd r)))"
      by (simp add: mem_calls)
  qed
qed

theorem run_succeeds_iff_all_pass_witness:
  "enumerate_values demo_sys [] demo_opt = Ok [''testdata/a.yaml'', ''testdata/b.yaml'']
   \<and> fst (run demo_sys [] demo_opt [] [0, 1, 0, 2, 2, 1]) = Ok ()
   \<and> snd (goroutines (snd (run demo_sys [] demo_opt [] [0, 1, 0, 2, 2, 1])) ! 0) = Returned None
   \<and> snd (goroutines (snd (run demo_sys [] demo_opt [] [0, 1, 0, 2, 2, 1])) ! 1) = Returned None
   \<and> main_exit (fst (run demo_sys [] demo_opt [] [0, 1, 0, 2, 2, 1])) = 0
   \<and> fst (run demo_sys [''testdata/b.yaml.snap''] demo_opt [] [0, 0, 2, 2, 1])
       = Err ''not match snapshot chart=chart values=testdata/b.yaml''
   \<and> main_exit (fst (run demo_sys [''testdata/b.yaml.snap''] demo_opt [] [0, 0, 2, 2, 1])) \<noteq> 0"
proof -
  let ?r = "run demo_sys [] demo_opt [] [0, 1, 0, 2, 2, 1]"
  let ?f = "run demo_sys [''testdata/b.yaml.snap''] demo_opt [] [0, 0, 2, 2, 1]"
  note t = run_succeeds_iff_all_pass[OF demo_enum(1), of "[]" "[]" "[0, 1, 0, 2, 2, 1]"]
  note u = run_succeeds_iff_all_pass[OF demo_enum(1), of "[''testdata/b.yaml.snap'']" "[]" "[0, 0, 2, 2, 1]"]
  have ok: "fst ?r = Ok ()"
    unfolding demo_run_pass by simp
  have bad: "fst ?f = Err ''not match snapshot chart=chart values=testdata/b.yaml''"
    unfolding demo_run_cancelled by simp
  from t ok have "\<forall>i<2. snd (goroutines (snd ?r) ! i) = Returned None"
    by simp
  then have p0: "snd (goroutines (snd ?r) ! 0) = Returned None"
    and p1: "snd (goroutines (snd ?r) ! 1) = Returned None"
    by simp_all
  from t ok have e0: "main_exit (fst ?r) = 0" by blast
  from u bad have e1: "main_exit (fst ?f) \<noteq> 0" by simp
  from demo_enum(1) ok p0 p1 e0 bad e1 show ?thesis by blast
qed



text \<open>The calls of a TestCase's goroutine in update mode, and its result.\<close>

lemma update_calls:
  fixes sys :: "'w sys" and args :: "string list" and sched :: "nat list"
  assumes E: "enumerate_values sys w o' = Ok vs"
    and U: "UpdateSnapshot o'"
    and i: "i < length vs"
  defines "r \<equiv> run sys w o' args sched"
  defines "p \<equiv> charts_SnapshotFile sys (Chart o') (vs ! i)"
  shows "(\<exists>e. calls (out (snd r)) i = [OsRemove i p (RemoveFailed e)]
            \<and> snd (goroutines (snd r) ! i)
                = Returned (Some (''failed to replace snapshot file: '' @ e)))
       \<or> (\<exists>rr c sr. \<not> remove_fatal rr
            \<and> calls (out (snd r)) i = [OsRemove i p rr, ChartsSnap i (mk_ht o' args (vs ! i)) c sr]
            \<and> (snd (goroutines (snd r) ! i) = Returned None \<longleftrightarrow> snap_ok sr))"
proof -
  from i run_final(2)[OF E, of args sched] obtain res where
    g: "goroutines (snd r) ! i = (mk_ht o' args (vs ! i), Returned res)"
    and t: "task_ok sys o' i (mk_ht o' args (vs ! i), Returned res) (calls (out (snd r)) i)"
    unfolding r_def by blast
  from t U g show ?thesis
    unfolding p_def
    by (auto simp add: task_ok_def returned_ok_def simp del: split_paired_Ex)
qed




text \<open>
  C5. In update mode, for every TestCase and under every schedule: when the removal of the
  snapshot file answers not-exist, the goroutine goes on to call \<^verbatim>\<open>charts.Snap\<close>
  and the TestCase passes exactly when that call returns \<^verbatim>\<open>matched\<close> true and no
  error; when the removal fails with another error \<open>e\<close>, the goroutine makes no further
  call and returns \<^verbatim>\<open>failed to replace snapshot file: e\<close>, and \<^verbatim>\<open>run\<close> returns
  an error.
\<close>

theorem removal_not_found_is_ignored:
  fixes sys :: "'w sys" and args :: "string list" and sched :: "nat list"
  assumes E: "enumerate_values sys w o' = Ok vs"
    and U: "UpdateSnapshot o'"
    and i: "i < length vs"
  defines "r \<equiv> run sys w o' args sched"
  defines "p \<equiv> charts_SnapshotFile sys (Chart o') (vs ! i)"
  shows "(OsRemove i p RemoveNotExist \<in> set (out (snd r)) \<longrightarrow>
            (\<exists>c sr. calls (out (snd r)) i
                      = [OsRemove i p RemoveNotExist, ChartsSnap i (mk_ht o' args (vs ! i)) c sr]
                   \<and> (snd (goroutines (snd r) ! i) = Returned None \<longleftrightarrow> snap_ok sr)))
       \<and> (\<forall>e. OsRemove i p (RemoveFailed e) \<in> set (out (snd r)) \<longrightarrow>
            calls (out (snd r)) i = [OsRemove i p (RemoveFailed e)]
            \<and> snd (goroutines (snd r) ! i)
                = Returned (Some (''failed to replace snapshot file: '' @ e))
            \<and> (\<exists>m. fst r = Err m))"
proof -
  have m: "OsRemove i p x \<in> set (out (snd r)) \<longleftrightarrow> OsRemove i p x \<in> set (calls (out (snd r)) i)"
    for x by (simp add: mem_calls)
  have bad: "\<exists>m. fst r = Err m"
    if "snd (goroutines (snd r) ! i) = Returned (Some e)" for e
  proof -
    from that i have "\<not> (\<forall>i<length vs. snd (goroutines (snd r) ! i) = Returned None)"
      by auto
    with run_final(3)[OF E, of args sched] have "fst r \<noteq> Ok ()"
      unfolding r_def by blast
    with run_final(4)[OF E, of args sched] show ?thesis
      unfolding r_def by blast
  qed
  from update_calls[OF E U i, of args sched]
  show ?thesis
    unfolding r_def[symmetric] p_def[symmetric] m
    using bad by (elim disjE exE conjE) (simp, auto)
qed

theorem removal_not_found_is_ignored_witness:
  "enumerate_values demo_sys [''testdata/b.yaml.snap''] demo_update
     = Ok [''testdata/a.yaml'', ''testdata/b.yaml'']
   \<and> UpdateSnapshot demo_update
   \<and> (0::nat) < length [''testdata/a.yaml'', ''testdata/b.yaml'']
   \<and> OsRemove 0 ''testdata/a.yaml.snap'' RemoveNotExist
       \<in> set (out (snd (run demo_sys [''testdata/b.yaml.snap''] demo_update [] [0, 0, 2, 1, 1, 2])))
   \<and> (\<exists>c sr. calls (out (snd (run demo_sys [''testdata/b.yaml.snap''] demo_update [] [0, 0, 2, 1, 1, 2]))) 0
               = [OsRemove 0 ''testdata/a.yaml.snap'' RemoveNotExist,
                  ChartsSnap 0 (mk_ht demo_update [] ''testdata/a.yaml'') c sr]
             \<and> (snd (goroutines (snd (run demo_sys [''testdata/b.yaml.snap''] demo_update []
                                         [0, 0, 2, 1, 1, 2])) ! 0) = Returned None
                \<longleftrightarrow> snap_ok sr))
   \<and> OsRemove 0 ''testdata/a.yaml.snap'' (RemoveFailed ''permission denied'')
       \<in> set (out (snd (run demo_denied [''testdata/b.yaml.snap''] demo_update [] [0, 1, 1])))
   \<and> snd (goroutines (snd (run demo_denied [''testdata/b.yaml.snap''] demo_update [] [0, 1, 1])) ! 0)
       = Returned (Some (''failed to replace snapshot file: '' @ ''permission denied''))
   \<and> (\<exists>m. fst (run demo_denied [''testdata/b.yaml.snap''] demo_update [] [0, 1, 1]) = Err m)"
proof -
  let ?r = "run demo_sys [''testdata/b.yaml.snap''] demo_update [] [0, 0, 2, 1, 1, 2]"
  let ?d = "run demo_denied [''testdata/b.yaml.snap''] demo_update [] [0, 1, 1]"
  have u: "UpdateSnapshot demo_update" by (simp add: demo_update_def)
  have i: "(0::nat) < length [''testdata/a.yaml'', ''testdata/b.yaml'']" by simp
  have f: "charts_SnapshotFile demo_sys (Chart demo_update) ([''testdata/a.yaml'', ''testdata/b.yaml''] ! 0)
           = ''testdata/a.yaml.snap''"
    "charts_SnapshotFile demo_denied (Chart demo_update) ([''testdata/a.yaml'', ''testdata/b.yaml''] ! 0)
           = ''testdata/a.yaml.snap''"
    by (simp_all add: demo_sys_def demo_denied_def)
  have m1: "OsRemove 0 ''testdata/a.yaml.snap'' RemoveNotExist \<in> set (out (snd ?r))"
    unfolding demo_run_update by simp
  have m2: "OsRemove 0 ''testdata/a.yaml.snap'' (RemoveFailed ''permission denied'')
            \<in> set (out (snd ?d))"
    unfolding demo_run_denied by simp
  note t1 = removal_not_found_is_ignored[OF demo_enum(2) u i,
      of "[''testdata/b.yaml.snap'']" "[]" "[0, 0, 2, 1, 1, 2]", unfolded f]
  note t2 = removal_not_found_is_ignored[OF demo_enum(3) u i,
      of "[''testdata/b.yaml.snap'']" "[]" "[0, 1, 1]", unfolded f]
  from t1 m1 have c1: "\<exists>c sr. calls (out (snd ?r)) 0
               = [OsRemove 0 ''testdata/a.yaml.snap'' RemoveNotExist,
                  ChartsSnap 0 (mk_ht demo_update [] ''testdata/a.yaml'') c sr]
             \<and> (snd (goroutines (snd ?r) ! 0) = Returned None \<longleftrightarrow> snap_ok sr)"
    by simp
  from t2 m2 have c2: "snd (goroutines (snd ?d) ! 0)
       = Returned (Some (''failed to replace snapshot file: '' @ ''permission denied''))"
    and c3: "\<exists>m. fst ?d = Err m"
    by blast+
  from demo_enum(2) u i m1 c1 m2 c2 c3 show ?thesis by blast
qed

text \<open>
  C6. With an empty values flag, whatever the file system holds, the values inputs are the
  one empty string; under every schedule one goroutine is started, its options carry the
  empty string as \<^verbatim>\<open>ValuesFile\<close>, every call of \<^verbatim>\<open>charts.Snap\<close> of the run is
  made by it with these options, and it makes that call unless its removal of the
  snapshot file failed in update mode.
\<close>

theorem empty_values_single_testcase:
  fixes sys :: "'w sys" and w :: 'w and args :: "string list" and sched :: "nat list"
  assumes V: "ValuesFile o' = []"
  defines "s \<equiv> snd (run sys w o' args sched)"
  shows "enumerate_values sys w o' = Ok [[]]
     \<and> length (goroutines s) = 1
     \<and> fst (goroutines s ! 0) = mk_ht o' args []
     \<and> ht_ValuesFile (fst (goroutines s ! 0)) = []
     \<and> (\<forall>i ht c sr. ChartsSnap i ht c sr \<in> set (out s) \<longrightarrow> i = 0 \<and> ht = mk_ht o' args [])
     \<and> ((\<exists>c sr. ChartsSnap 0 (mk_ht o' args []) c sr \<in> set (out s))
        \<or> UpdateSnapshot o'
          \<and> (\<exists>e. calls (out s) 0
                   = [OsRemove 0 (charts_SnapshotFile sys (Chart o') []) (RemoveFailed e)]))"
proof -
  from V have E: "enumerate_values sys w o' = Ok [[]]"
    by (simp add: enumerate_values_def)
  from run_final(2)[OF E, of args sched] obtain res where
    g: "goroutines s ! 0 = (mk_ht o' args [], Returned res)"
    and t: "task_ok sys o' 0 (mk_ht o' args [], Returned res) (calls (out s) 0)"
    unfolding s_def by auto
  have l: "length (goroutines s) = 1"
    unfolding s_def using run_final(1)[OF E, of args sched] by simp
  have ids: "\<forall>e\<in>set (out s). \<forall>j. task_of e = Some j \<longrightarrow> j < 1"
    unfolding s_def using run_final(5)[OF E, of args sched] by simp
  have snaps: "i = 0 \<and> ht = mk_ht o' args []"
    if m: "ChartsSnap i ht c sr \<in> set (out s)" for i ht c sr
  proof -
    from ids m have i0: "i = 0" by fastforce
    with m have "ChartsSnap 0 ht c sr \<in> set (calls (out s) 0)"
      by (simp add: mem_calls)
    with task_ok_snap_ht[OF t] i0 show ?thesis by blast
  qed
  from task_ok_Returned_called[OF t]
  have called: "(\<exists>c sr. ChartsSnap 0 (mk_ht o' args []) c sr \<in> set (out s))
        \<or> UpdateSnapshot o'
          \<and> (\<exists>e. calls (out s) 0
                   = [OsRemove 0 (charts_SnapshotFile sys (Chart o') []) (RemoveFailed e)])"
    by (simp add: mem_calls)
  from g have "fst (goroutines s ! 0) = mk_ht o' args []"
    and "ht_ValuesFile (fst (goroutines s ! 0)) = []"
    by (simp_all add: mk_ht_def)
  with E l snaps called show ?thesis by blast
qed

theorem empty_values_single_testcase_witness:
  "ValuesFile demo_default = []
   \<and> enumerate_values demo_sys [] demo_default = Ok [[]]
   \<and> length (goroutines (snd (run demo_sys [] demo_default [] [1, 0]))) = 1
   \<and> ht_ValuesFile (fst (goroutines (snd (run demo_sys [] demo_default [] [1, 0])) ! 0)) = []
   \<and> ChartsSnap 0 (mk_ht demo_default [] []) False (True, [], None)
       \<in> set (out (snd (run demo_sys [] demo_default [] [1, 0])))"
proof -
  have v: "ValuesFile demo_default = []" by (simp add: demo_default_def demo_opt_def)
  note t = empty_values_single_testcase[OF v, of demo_sys "[]" "[]" "[1, 0]"]
  have m: "ChartsSnap 0 (mk_ht demo_default [] []) False (True, [], None)
           \<in> set (out (snd (run demo_sys [] demo_default [] [1, 0])))"
    unfolding demo_run_default by simp
  from v t m show ?thesis by blast
qed




text \<open>
  C10. When the values flag names a directory that \<^verbatim>\<open>os.ReadDir\<close> lists without
  error, the values inputs are the paths \<^verbatim>\<open>path.Join(dir, name)\<close> of exactly the
  listed entries that are not directories and whose names have the suffix
  \<^verbatim>\<open>.yaml\<close>, in the order of the listing; under every schedule the goroutines
  started are the ones of these values inputs, in this order; and when no entry
  qualifies, no goroutine is started and \<^verbatim>\<open>run\<close> returns nil, so \<^verbatim>\<open>main\<close>
  exits with 0.
\<close>

theorem directory_values_enumeration:
  fixes sys :: "'w sys" and args :: "string list" and sched :: "nat list"
  assumes V: "ValuesFile o' \<noteq> []"
    and S: "os_Stat sys w (ValuesFile o') = StatInfo True"
    and D: "os_ReadDir sys w (ValuesFile o') = (files, None)"
  defines "vs \<equiv> map (\<lambda>f. path_Join sys (ValuesFile o') (Name f))
                   (filter (\<lambda>f. \<not> IsDir f \<and> HasSuffix (Name f) ''.yaml'') files)"
  defines "r \<equiv> run sys w o' args sched"
  shows "enumerate_values sys w o' = Ok vs
     \<and> map (\<lambda>g. ht_ValuesFile (fst g)) (goroutines (snd r)) = vs
     \<and> (filter (\<lambda>f. \<not> IsDir f \<and> HasSuffix (Name f) ''.yaml'') files = [] \<longrightarrow>
          goroutines (snd r) = [] \<and> fst r = Ok () \<and> main_exit (fst r) = 0)"
proof -
  from V S D have E: "enumerate_values sys w o' = Ok vs"
    by (simp add: enumerate_values_def vs_def collect_values_eq)
  have l: "length (goroutines (snd r)) = length vs"
    unfolding r_def by (rule run_final(1)[OF E])
  have "map (\<lambda>g. ht_ValuesFile (fst g)) (goroutines (snd r)) = vs"
  proof (rule nth_equalityI)
    show "length (map (\<lambda>g. ht_ValuesFile (fst g)) (goroutines (snd r))) = length vs"
      using l by simp
    fix i assume "i < length (map (\<lambda>g. ht_ValuesFile (fst g)) (goroutines (snd r)))"
    then have i: "i < length vs" using l by simp
    with run_final(2)[OF E, of args sched] obtain res where
      "goroutines (snd r) ! i = (mk_ht o' args (vs ! i), Returned res)"
      unfolding r_def by blast
    with i l show "map (\<lambda>g. ht_ValuesFile (fst g)) (goroutines (snd r)) ! i = vs ! i"
      by (simp add: mk_ht_def)
  qed
  moreover have "goroutines (snd r) = [] \<and> fst r = Ok () \<and> main_exit (fst r) = 0"
    if "filter (\<lambda>f. \<not> IsDir f \<and> HasSuffix (Name f) ''.yaml'') files = []"
  proof -
    from that have e: "vs = []" by (simp add: vs_def)
    with l have g: "goroutines (snd r) = []" by simp
    from run_final(3)[OF E, of args sched] e have "fst r = Ok ()"
      unfolding r_def by simp
    with g show ?thesis by (simp add: main_exit_def)
  qed
  ultimately show ?thesis using E by blast
qed

theorem directory_values_enumeration_witness:
  "ValuesFile demo_opt \<noteq> []
   \<and> os_Stat demo_sys [] (ValuesFile demo_opt) = StatInfo True
   \<and> os_ReadDir demo_sys [] (ValuesFile demo_opt)
       = ([\<lparr>Name = ''a.yaml'', IsDir = False\<rparr>, \<lparr>Name = ''sub.yaml'', IsDir = True\<rparr>,
           \<lparr>Name = ''notes.txt'', IsDir = False\<rparr>, \<lparr>Name = ''b.yaml'', IsDir = False\<rparr>], None)
   \<and> enumerate_values demo_sys [] demo_opt = Ok [''testdata/a.yaml'', ''testdata/b.yaml'']
   \<and> map (\<lambda>g. ht_ValuesFile (fst g)) (goroutines (snd (run demo_sys [] demo_opt [] [0, 1, 0, 2, 2, 1])))
       = [''testdata/a.yaml'', ''testdata/b.yaml'']
   \<and> os_ReadDir demo_no_yaml [] (ValuesFile demo_opt)
       = ([\<lparr>Name = ''README.md'', IsDir = False\<rparr>, \<lparr>Name = ''old.yaml'', IsDir = True\<rparr>], None)
   \<and> goroutines (snd (run demo_no_yaml [] demo_opt [] [1, 0])) = []
   \<and> fst (run demo_no_yaml [] demo_opt [] [1, 0]) = Ok ()
   \<and> main_exit (fst (run demo_no_yaml [] demo_opt [] [1, 0])) = 0"
proof -
  let ?files = "[\<lparr>Name = ''a.yaml'', IsDir = False\<rparr>, \<lparr>Name = ''sub.yaml'', IsDir = True\<rparr>,
           \<lparr>Name = ''notes.txt'', IsDir = False\<rparr>, \<lparr>Name = ''b.yaml'', IsDir = False\<rparr>]"
  let ?none = "[\<lparr>Name = ''README.md'', IsDir = False\<rparr>, \<lparr>Name = ''old.yaml'', IsDir = True\<rparr>]"
  have v: "ValuesFile demo_opt \<noteq> []" by (simp add: demo_opt_def)
  have s1: "os_Stat demo_sys [] (ValuesFile demo_opt) = StatInfo True"
    and s2: "os_Stat demo_no_yaml [] (ValuesFile demo_opt) = StatInfo True"
    and d1: "os_ReadDir demo_sys [] (ValuesFile demo_opt) = (?files, None)"
    and d2: "os_ReadDir demo_no_yaml [] (ValuesFile demo_opt) = (?none, None)"
    by (simp_all add: demo_opt_def demo_sys_def demo_no_yaml_def)
  have f1: "map (\<lambda>f. path_Join demo_sys (ValuesFile demo_opt) (Name f))
              (filter (\<lambda>f. \<not> IsDir f \<and> HasSuffix (Name f) ''.yaml'') ?files)
            = [''testdata/a.yaml'', ''testdata/b.yaml'']"
    by (simp add: demo_opt_def demo_sys_def HasSuffix_def)
  have f2: "filter (\<lambda>f. \<not> IsDir f \<and> HasSuffix (Name f) ''.yaml'') ?none = []"
    by (simp add: HasSuffix_def)
  note t1 = directory_values_enumeration[OF v s1 d1, of "[]" "[0, 1, 0, 2, 2, 1]", unfolded f1]
  note t2 = directory_values_enumeration[OF v s2 d2, of "[]" "[1, 0]"]
  from t2 f2 have e: "goroutines (snd (run demo_no_yaml [] demo_opt [] [1, 0])) = []
       \<and> fst (run demo_no_yaml [] demo_opt [] [1, 0]) = Ok ()
       \<and> main_exit (fst (run demo_no_yaml [] demo_opt [] [1, 0])) = 0"
    by blast
  from v s1 d1 d2 t1 e show ?thesis by blast
qed

end
